theory Spec2Isabelle
  imports Main "HOL-Library.Char_ord" "HOL-Library.List_Lexorder"
begin

section \<open>JavaScript values\<close>

text \<open>
  The values that reach \<^verbatim>\<open>DatabaseManager\<close>: \<^verbatim>\<open>undefined\<close>, \<^verbatim>\<open>null\<close>, booleans,
  numbers, strings, arrays and plain objects (an object is its list of properties).
  Numbers are integers here, with \<^verbatim>\<open>NaN\<close> apart: the class does no arithmetic, it only
  tests a number for truthiness and hands it to the store. A \<open>char\<close> stands for a
  code unit in the range U+0000 to U+00FF.
\<close>

datatype jsval =
    JUndefined
  | JNull
  | JBool bool
  | JNum int
  | JNaN
  | JStr string
  | JArr "jsval list"
  | JObj "(string \<times> jsval) list"

text \<open>ToBoolean: the falsy values are \<^verbatim>\<open>undefined\<close>, \<^verbatim>\<open>null\<close>, \<^verbatim>\<open>false\<close>, \<^verbatim>\<open>0\<close>,
  \<^verbatim>\<open>NaN\<close> and \<^verbatim>\<open>''\<close>.\<close>

fun truthy :: "jsval \<Rightarrow> bool" where
  "truthy JUndefined = False"
| "truthy JNull = False"
| "truthy (JBool b) = b"
| "truthy (JNum n) = (n \<noteq> 0)"
| "truthy JNaN = False"
| "truthy (JStr s) = (s \<noteq> [])"
| "truthy (JArr vs) = True"
| "truthy (JObj fs) = True"

text \<open>\<^verbatim>\<open>a && b\<close> and \<^verbatim>\<open>a || b\<close> return one of their operands.\<close>

definition js_and :: "jsval \<Rightarrow> jsval \<Rightarrow> jsval" where
  "js_and a b = (if truthy a then b else a)"

definition js_or :: "jsval \<Rightarrow> jsval \<Rightarrow> jsval" where
  "js_or a b = (if truthy a then a else b)"

text \<open>\<^verbatim>\<open>o[name]\<close> for a property name that is not built in (\<^verbatim>\<open>'v'\<close>, \<^verbatim>\<open>'key'\<close>,
  \<^verbatim>\<open>'value'\<close>): the property of an object, \<^verbatim>\<open>undefined\<close> on every other value that
  allows property access.\<close>

fun js_field :: "jsval \<Rightarrow> string \<Rightarrow> jsval" where
  "js_field (JObj fs) name = (case map_of fs name of Some v \<Rightarrow> v | None \<Rightarrow> JUndefined)"
| "js_field v name = JUndefined"

text \<open>\<^verbatim>\<open>String.prototype.trim\<close> strips white space and line terminators from both
  ends; below U+0100 these are TAB, LF, VT, FF, CR, SP and NBSP.\<close>

definition is_white_space :: "char \<Rightarrow> bool" where
  "is_white_space c = (of_char c \<in> {9, 10, 11, 12, 13, 32, 160 :: nat})"

definition trim :: "string \<Rightarrow> string" where
  "trim s = rev (dropWhile is_white_space (rev (dropWhile is_white_space s)))"

section \<open>The storage engine\<close>

text \<open>
  IndexedDB is the host's, not the repository's. It is modelled as far as the class
  calls it: databases by name, each with a version and named object stores; an object
  store has a key path and its records in ascending key order. The engine is
  fault-free: a request fails only by the exceptions the IndexedDB standard prescribes
  for its arguments, never by quota or I/O.
\<close>

datatype idbkey = KNum int | KStr string | KArr "idbkey list"

text \<open>Conversion of a value to a key: numbers other than \<^verbatim>\<open>NaN\<close>, strings, and arrays
  of keys are valid keys.\<close>

fun to_key :: "jsval \<Rightarrow> idbkey option" where
  "to_key (JNum n) = Some (KNum n)"
| "to_key (JStr s) = Some (KStr s)"
| "to_key (JArr vs) = map_option KArr (those (map to_key vs))"
| "to_key JUndefined = None"
| "to_key JNull = None"
| "to_key (JBool b) = None"
| "to_key JNaN = None"
| "to_key (JObj fs) = None"

fun key_to_js :: "idbkey \<Rightarrow> jsval" where
  "key_to_js (KNum n) = JNum n"
| "key_to_js (KStr s) = JStr s"
| "key_to_js (KArr ks) = JArr (map key_to_js ks)"

text \<open>The engine's key order: number < string < array; strings by code unit, arrays
  element by element, a proper prefix first.\<close>

fun key_less :: "idbkey \<Rightarrow> idbkey \<Rightarrow> bool" where
  "key_less (KNum a) (KNum b) = (a < b)"
| "key_less (KNum a) (KStr t) = True"
| "key_less (KNum a) (KArr ys) = True"
| "key_less (KStr s) (KNum b) = False"
| "key_less (KStr s) (KStr t) = (s < t)"
| "key_less (KStr s) (KArr ys) = True"
| "key_less (KArr xs) (KNum b) = False"
| "key_less (KArr xs) (KStr t) = False"
| "key_less (KArr []) (KArr []) = False"
| "key_less (KArr []) (KArr (y # ys)) = True"
| "key_less (KArr (x # xs)) (KArr []) = False"
| "key_less (KArr (x # xs)) (KArr (y # ys)) =
     (if x = y then key_less (KArr xs) (KArr ys) else key_less x y)"

record object_store =
  os_keyPath :: string
  os_records :: "(idbkey \<times> jsval) list"

record database =
  db_version :: int
  db_stores :: "string \<rightharpoonup> object_store"

type_synonym engine = "string \<rightharpoonup> database"

text \<open>An \<^verbatim>\<open>IDBDatabase\<close> handle refers to the database it was opened on.\<close>

datatype connection = Connection string

fun conn_name :: "connection \<Rightarrow> string" where
  "conn_name (Connection n) = n"

datatype error =
    Error string
  | TypeError
  | NotFoundError
  | DataError
  | ConstraintError
  | SyntaxError
  | InvalidStateError

text \<open>A key path is a dot-separated sequence of property names; the empty key path
  is the value itself.\<close>

fun split_path :: "string \<Rightarrow> string list" where
  "split_path [] = [[]]"
| "split_path (c # cs) =
     (if c = CHR ''.'' then [] # split_path cs
      else (case split_path cs of [] \<Rightarrow> [[c]] | p # ps \<Rightarrow> (c # p) # ps))"

text \<open>Evaluating a key path on a value: an own property of an object that is not
  \<^verbatim>\<open>undefined\<close>, the \<^verbatim>\<open>length\<close> of a string or of an array; failure otherwise.\<close>

fun follow_path :: "jsval \<Rightarrow> string list \<Rightarrow> jsval option" where
  "follow_path v [] = Some v"
| "follow_path (JObj fs) (p # ps) =
     (case map_of fs p of
        None \<Rightarrow> None
      | Some x \<Rightarrow> if x = JUndefined then None else follow_path x ps)"
| "follow_path (JStr s) (p # ps) =
     (if p = ''length'' then follow_path (JNum (int (length s))) ps else None)"
| "follow_path (JArr vs) (p # ps) =
     (if p = ''length'' then follow_path (JNum (int (length vs))) ps else None)"
| "follow_path v (p # ps) = None"

definition evaluate_key_path :: "string \<Rightarrow> jsval \<Rightarrow> jsval option" where
  "evaluate_key_path path v = (if path = [] then Some v else follow_path v (split_path path))"

text \<open>A valid key path is the empty string or identifiers joined by dots. An identifier
  starts with a letter, \<^verbatim>\<open>$\<close> or \<^verbatim>\<open>_\<close> and goes on with these, digits and U+00B7; the
  letters below U+0100 are A to Z, a to z, U+00AA, U+00B5, U+00BA and U+00C0 to U+00FF
  without U+00D7 and U+00F7. Unicode escapes are not modelled.\<close>

definition is_identifier_start :: "char \<Rightarrow> bool" where
  "is_identifier_start c =
     (let n = (of_char c :: nat)
      in n = 36 \<or> n = 95 \<or> (65 \<le> n \<and> n \<le> 90) \<or> (97 \<le> n \<and> n \<le> 122) \<or>
         n = 170 \<or> n = 181 \<or> n = 186 \<or>
         (192 \<le> n \<and> n \<le> 214) \<or> (216 \<le> n \<and> n \<le> 246) \<or> (248 \<le> n \<and> n \<le> 255))"

definition is_identifier_part :: "char \<Rightarrow> bool" where
  "is_identifier_part c =
     (let n = (of_char c :: nat)
      in is_identifier_start c \<or> (48 \<le> n \<and> n \<le> 57) \<or> n = 183)"

fun is_identifier :: "string \<Rightarrow> bool" where
  "is_identifier [] = False"
| "is_identifier (c # cs) = (is_identifier_start c \<and> list_all is_identifier_part cs)"

definition valid_key_path :: "string \<Rightarrow> bool" where
  "valid_key_path path = (path = [] \<or> list_all is_identifier (split_path path))"

definition extract_key :: "string \<Rightarrow> jsval \<Rightarrow> idbkey option" where
  "extract_key path v = (case evaluate_key_path path v of None \<Rightarrow> None | Some x \<Rightarrow> to_key x)"

text \<open>Storing a record: the record with an equal key is replaced, a new record goes
  to its place in the key order.\<close>

fun insert_record :: "idbkey \<Rightarrow> jsval \<Rightarrow> (idbkey \<times> jsval) list \<Rightarrow> (idbkey \<times> jsval) list" where
  "insert_record k v [] = [(k, v)]"
| "insert_record k v ((k', v') # rs) =
     (if k = k' then (k, v) # rs
      else if key_less k k' then (k, v) # (k', v') # rs
      else (k', v') # insert_record k v rs)"

text \<open>The requests of an object store. Each returns \<open>Inl\<close> for the exception that the
  call throws, \<open>Inr\<close> for the result that its success event carries.\<close>

definition store_get :: "object_store \<Rightarrow> jsval \<Rightarrow> error + jsval" where
  "store_get st key =
     (case to_key key of
        None \<Rightarrow> Inl DataError
      | Some k \<Rightarrow> Inr (case map_of (os_records st) k of None \<Rightarrow> JUndefined | Some r \<Rightarrow> r))"

definition store_put :: "object_store \<Rightarrow> jsval \<Rightarrow> error + (jsval \<times> object_store)" where
  "store_put st record =
     (case extract_key (os_keyPath st) record of
        None \<Rightarrow> Inl DataError
      | Some k \<Rightarrow> Inr (key_to_js k, st\<lparr>os_records := insert_record k record (os_records st)\<rparr>))"

definition store_delete :: "object_store \<Rightarrow> jsval \<Rightarrow> error + (jsval \<times> object_store)" where
  "store_delete st key =
     (case to_key key of
        None \<Rightarrow> Inl DataError
      | Some k \<Rightarrow> Inr (JUndefined, st\<lparr>os_records := filter (\<lambda>r. fst r \<noteq> k) (os_records st)\<rparr>))"

definition store_getAllKeys :: "object_store \<Rightarrow> jsval" where
  "store_getAllKeys st = JArr (map (\<lambda>r. key_to_js (fst r)) (os_records st))"

definition store_getAll :: "object_store \<Rightarrow> jsval" where
  "store_getAll st = JArr (map snd (os_records st))"

definition store_clear :: "object_store \<Rightarrow> jsval \<times> object_store" where
  "store_clear st = (JUndefined, st\<lparr>os_records := []\<rparr>)"

text \<open>\<^verbatim>\<open>db.transaction(name, mode)\<close> throws \<^verbatim>\<open>NotFoundError\<close> when the database has
  no object store of that name; \<open>commit_store\<close> writes a transaction's store back.\<close>

definition transaction :: "engine \<Rightarrow> connection \<Rightarrow> string \<Rightarrow> error + object_store" where
  "transaction eng c name =
     (case eng (conn_name c) of
        None \<Rightarrow> Inl InvalidStateError
      | Some d \<Rightarrow> (case db_stores d name of None \<Rightarrow> Inl NotFoundError | Some st \<Rightarrow> Inr st))"

definition commit_store :: "engine \<Rightarrow> connection \<Rightarrow> string \<Rightarrow> object_store \<Rightarrow> engine" where
  "commit_store eng c name st =
     (case eng (conn_name c) of
        None \<Rightarrow> eng
      | Some d \<Rightarrow> eng(conn_name c \<mapsto> d\<lparr>db_stores := (db_stores d)(name \<mapsto> st)\<rparr>))"

section \<open>Promises, engine calls and events\<close>

datatype 'a promise = Pending | Resolved 'a | Rejected error

text \<open>\<^verbatim>\<open>resolve\<close> and \<^verbatim>\<open>reject\<close> settle a pending promise and leave a settled one as
  it is.\<close>

definition resolve :: "'a \<Rightarrow> 'a promise \<Rightarrow> 'a promise" where
  "resolve v p = (case p of Pending \<Rightarrow> Resolved v | Resolved w \<Rightarrow> Resolved w | Rejected e \<Rightarrow> Rejected e)"

definition reject :: "error \<Rightarrow> 'a promise \<Rightarrow> 'a promise" where
  "reject e p = (case p of Pending \<Rightarrow> Rejected e | Resolved w \<Rightarrow> Resolved w | Rejected e' \<Rightarrow> Rejected e')"

text \<open>The engine calls that a data operation makes, in the order it makes them.\<close>

datatype mode = ReadOnly | ReadWrite

datatype call =
    Transaction string mode
  | ObjectStore string
  | Get jsval
  | Put jsval
  | Delete jsval
  | GetAllKeys
  | GetAll
  | Clear
  | Commit

text \<open>The events of a transaction: \<open>Success\<close> and \<open>RequestError\<close> fire at a request (the
  error event bubbles to the transaction's \<^verbatim>\<open>onerror\<close>), \<open>Complete\<close> and \<open>Abort\<close> at
  the transaction. A table of handlers maps an event to the settlement its handler
  makes, \<open>None\<close> where the operation registered no handler for it; the promise takes
  the first settlement.\<close>

datatype event = Success jsval | RequestError | Complete | Abort

fun settle :: "(event \<Rightarrow> 'a promise option) \<Rightarrow> event list \<Rightarrow> 'a promise" where
  "settle handlers [] = Pending"
| "settle handlers (ev # evs) =
     (case handlers ev of Some p \<Rightarrow> p | None \<Rightarrow> settle handlers evs)"

section \<open>The class DatabaseManager\<close>

record DatabaseManager =
  db :: "connection option"
  ready :: bool
  databaseName :: string
  version :: int
  storeName :: string
  keyPath :: string

definition constructor :: "string \<Rightarrow> int \<Rightarrow> string \<Rightarrow> string \<Rightarrow> DatabaseManager" where
  "constructor name ver store path =
     \<lparr>db = None, ready = False, databaseName = name, version = ver,
      storeName = store, keyPath = path\<rparr>"

text \<open>\<^verbatim>\<open>new DatabaseManager()\<close>, with the default of every parameter.\<close>

definition default_manager :: DatabaseManager where
  "default_manager = constructor ''ldb'' 1 ''s'' ''k''"

subsection \<open>init\<close>

text \<open>The host's global object, \<open>None\<close> where \<^verbatim>\<open>typeof window\<close> is \<^verbatim>\<open>'undefined'\<close>.
  Each of the four properties is absent, present with the value \<^verbatim>\<open>undefined\<close>, or
  present with the engine's factory; reading an absent property gives \<^verbatim>\<open>undefined\<close>.\<close>

datatype factory = IDBFactory

datatype property = Absent | Undefined | Present factory

record window =
  indexedDB :: property
  mozIndexedDB :: property
  webkitIndexedDB :: property
  msIndexedDB :: property

text \<open>\<^verbatim>\<open>!p\<close> and \<^verbatim>\<open>p || q\<close> on what a property reads as.\<close>

fun falsy :: "property \<Rightarrow> bool" where
  "falsy Absent = True"
| "falsy Undefined = True"
| "falsy (Present f) = False"

definition first_of :: "property \<Rightarrow> property \<Rightarrow> property" where
  "first_of a b = (if falsy a then b else a)"

text \<open>\<^verbatim>\<open>indexedDB.open(name, version)\<close>: a version below 1 throws \<^verbatim>\<open>TypeError\<close>; a
  database that is absent or older is upgraded, in a version-change transaction on
  its stores; a newer one fails the request.\<close>

datatype open_result = Opened | UpgradeNeeded database | VersionError

definition idb_open :: "engine \<Rightarrow> string \<Rightarrow> int \<Rightarrow> error + open_result" where
  "idb_open eng name ver =
     (if ver < 1 then Inl TypeError
      else (case eng name of
              None \<Rightarrow> Inr (UpgradeNeeded \<lparr>db_version = ver, db_stores = Map.empty\<rparr>)
            | Some d \<Rightarrow>
                if db_version d < ver then Inr (UpgradeNeeded (d\<lparr>db_version := ver\<rparr>))
                else if db_version d = ver then Inr Opened
                else Inr VersionError))"

text \<open>\<^verbatim>\<open>createObjectStore(name, {keyPath})\<close> throws \<^verbatim>\<open>SyntaxError\<close> when the key path
  is not valid, then \<^verbatim>\<open>ConstraintError\<close> when the store exists.\<close>

definition createObjectStore :: "database \<Rightarrow> string \<Rightarrow> string \<Rightarrow> error + database" where
  "createObjectStore d name path =
     (if valid_key_path path
      then (case db_stores d name of
              Some st \<Rightarrow> Inl ConstraintError
            | None \<Rightarrow>
                Inr (d\<lparr>db_stores := (db_stores d)(name \<mapsto> \<lparr>os_keyPath = path, os_records = []\<rparr>)\<rparr>))
      else Inl SyntaxError)"

text \<open>What \<^verbatim>\<open>init\<close> has reached after a task: the object's fields, the promise that
  \<^verbatim>\<open>init\<close> returned, and the engine.\<close>

record run_state =
  manager :: DatabaseManager
  settled :: "unit promise"
  stored :: engine

text \<open>The four handlers that \<^verbatim>\<open>init\<close> registers. \<open>onsuccess\<close> sets \<open>db\<close> and \<open>ready\<close>;
  \<open>oncomplete\<close>, on the version-change transaction, sets \<open>db\<close> only.\<close>

definition onsuccess :: "connection \<Rightarrow> run_state \<Rightarrow> run_state" where
  "onsuccess result s =
     s\<lparr>manager := (manager s)\<lparr>db := Some result, ready := True\<rparr>,
       settled := resolve () (settled s)\<rparr>"

definition onerror :: "run_state \<Rightarrow> run_state" where
  "onerror s = s\<lparr>settled := reject (Error ''IndexedDB request error'') (settled s)\<rparr>"

definition onupgradeneeded :: "database \<Rightarrow> run_state \<Rightarrow> run_state \<times> (error + database)" where
  "onupgradeneeded d s =
     (let s' = s\<lparr>manager := (manager s)\<lparr>db := None\<rparr>\<rparr>
      in (s', createObjectStore d (storeName (manager s')) (keyPath (manager s'))))"

definition oncomplete :: "connection \<Rightarrow> run_state \<Rightarrow> run_state" where
  "oncomplete c s =
     s\<lparr>manager := (manager s)\<lparr>db := Some c\<rparr>, settled := resolve () (settled s)\<rparr>"

text \<open>
  \<^verbatim>\<open>init\<close>, as the list of the states after the executor and after each task that
  runs one of its handlers; the last state is where it ends. An exception in the
  executor rejects the promise. An exception in \<^verbatim>\<open>onupgradeneeded\<close> aborts the
  version-change transaction, the engine keeps its old state and the request fails.
  Otherwise the transaction commits, \<^verbatim>\<open>complete\<close> fires at it, and \<^verbatim>\<open>success\<close> fires at
  the request in a later task.
\<close>

definition init :: "window option \<Rightarrow> DatabaseManager \<Rightarrow> engine \<Rightarrow> run_state list" where
  "init env this eng =
     (let win = (case env of
                   Some w \<Rightarrow> w
                 | None \<Rightarrow> \<lparr>indexedDB = Absent, mozIndexedDB = Absent,
                             webkitIndexedDB = Absent, msIndexedDB = Absent\<rparr>);
          idb = first_of (indexedDB win) (first_of (mozIndexedDB win)
                  (first_of (webkitIndexedDB win) (msIndexedDB win)));
          s0 = \<lparr>manager = this, settled = Pending, stored = eng\<rparr>
      in if env \<noteq> None \<and> falsy idb
         then [s0\<lparr>settled := Rejected (Error ''IndexedDB not supported'')\<rparr>]
         else (case idb of
                 Absent \<Rightarrow> [s0\<lparr>settled := Rejected TypeError\<rparr>]
               | Undefined \<Rightarrow> [s0\<lparr>settled := Rejected TypeError\<rparr>]
               | Present f \<Rightarrow>
                   (case idb_open eng (databaseName this) (version this) of
                      Inl e \<Rightarrow> [s0\<lparr>settled := Rejected e\<rparr>]
                    | Inr Opened \<Rightarrow> [s0, onsuccess (Connection (databaseName this)) s0]
                    | Inr VersionError \<Rightarrow> [s0, onerror s0]
                    | Inr (UpgradeNeeded d) \<Rightarrow>
                        (case onupgradeneeded d s0 of
                           (s1, Inl e) \<Rightarrow> [s0, s1, onerror s1]
                         | (s1, Inr d') \<Rightarrow>
                             (let s2 = oncomplete (Connection (databaseName this))
                                         (s1\<lparr>stored := eng(databaseName this \<mapsto> d')\<rparr>)
                              in [s0, s1, s2, onsuccess (Connection (databaseName this)) s2])))))"

text \<open>The state in which the promise of \<^verbatim>\<open>init\<close> is first settled: a continuation of
  \<^verbatim>\<open>init().then(...)\<close> runs there, before the next task.\<close>

fun first_settled :: "run_state list \<Rightarrow> run_state option" where
  "first_settled [] = None"
| "first_settled (s # ss) = (if settled s = Pending then first_settled ss else Some s)"

definition isSupported :: "window option \<Rightarrow> bool" where
  "isSupported env = (case env of None \<Rightarrow> False | Some w \<Rightarrow> indexedDB w \<noteq> Absent)"

subsection \<open>The readiness gate\<close>

text \<open>
  \<^verbatim>\<open>_waitForDB\<close> tests \<^verbatim>\<open>this.db\<close> at once and then every 50 ms until it is set. The
  object is given as a timeline: \<open>tline 0\<close> is the object when the operation is called,
  \<open>tline n\<close> the object at the \<open>n\<close>-th tick of the interval. The result is the index at
  which the gate opens, \<open>None\<close> when it never does.
\<close>

partial_function (option) poll :: "(nat \<Rightarrow> DatabaseManager) \<Rightarrow> nat \<Rightarrow> nat option" where
  "poll tline n = (if db (tline n) \<noteq> None then Some n else poll tline (Suc n))"

declare poll.simps [code]

definition waitForDB :: "(nat \<Rightarrow> DatabaseManager) \<Rightarrow> nat option" where
  "waitForDB tline = (if db (tline 0) = None then poll tline 1 else Some 0)"

subsection \<open>The data operations\<close>

text \<open>
  An operation returns its promise, the engine calls it made, and the engine after
  it. An operation that stays at the gate returns a pending promise and makes no
  call. Past the gate, the executor runs on the object as it is then; an exception in
  the executor rejects the promise with that exception.
\<close>

type_synonym 'a outcome = "'a promise \<times> call list \<times> engine"

definition get_handlers :: "event \<Rightarrow> jsval promise option" where
  "get_handlers ev =
     (case ev of
        Success result \<Rightarrow> Some (Resolved (js_or (js_and result (js_field result ''v'')) JNull))
      | RequestError \<Rightarrow> Some (Rejected (Error ''Error getting the value from IndexedDB''))
      | Complete \<Rightarrow> None
      | Abort \<Rightarrow> None)"

definition get_executor :: "DatabaseManager \<Rightarrow> engine \<Rightarrow> jsval \<Rightarrow> jsval outcome" where
  "get_executor this eng key =
     (case db this of
        None \<Rightarrow> (Rejected TypeError, [], eng)
      | Some c \<Rightarrow>
          (case transaction eng c ''s'' of
             Inl e \<Rightarrow> (Rejected e, [Transaction ''s'' ReadOnly], eng)
           | Inr st \<Rightarrow>
               (case store_get st key of
                  Inl e \<Rightarrow> (Rejected e, [Transaction ''s'' ReadOnly, ObjectStore ''s'', Get key], eng)
                | Inr result \<Rightarrow>
                    (settle get_handlers [Success result, Complete],
                     [Transaction ''s'' ReadOnly, ObjectStore ''s'', Get key], eng))))"

definition get :: "(nat \<Rightarrow> DatabaseManager) \<Rightarrow> engine \<Rightarrow> jsval \<Rightarrow> jsval outcome" where
  "get tline eng key =
     (case waitForDB tline of
        None \<Rightarrow> (Pending, [], eng)
      | Some n \<Rightarrow> get_executor (tline n) eng key)"

text \<open>\<^verbatim>\<open>typeof key !== 'string' || key.trim() === ''\<close>\<close>

fun invalid_key :: "jsval \<Rightarrow> bool" where
  "invalid_key (JStr s) = (trim s = [])"
| "invalid_key v = True"

definition set_handlers :: "event \<Rightarrow> unit promise option" where
  "set_handlers ev =
     (case ev of
        Success result \<Rightarrow> None
      | RequestError \<Rightarrow> Some (Rejected (Error ''Error setting the value in IndexedDB''))
      | Complete \<Rightarrow> Some (Resolved ())
      | Abort \<Rightarrow> None)"

definition set_executor :: "DatabaseManager \<Rightarrow> engine \<Rightarrow> jsval \<Rightarrow> jsval \<Rightarrow> unit outcome" where
  "set_executor this eng key val =
     (case db this of
        None \<Rightarrow> (Rejected TypeError, [], eng)
      | Some c \<Rightarrow>
          (case transaction eng c ''s'' of
             Inl e \<Rightarrow> (Rejected e, [Transaction ''s'' ReadWrite], eng)
           | Inr st \<Rightarrow>
               (let record = JObj [(''k'', key), (''v'', val)]
                in case store_put st record of
                     Inl e \<Rightarrow>
                       (Rejected e, [Transaction ''s'' ReadWrite, ObjectStore ''s'', Put record], eng)
                   | Inr (k, st') \<Rightarrow>
                       (settle set_handlers [Success k, Complete],
                        [Transaction ''s'' ReadWrite, ObjectStore ''s'', Put record, Commit],
                        commit_store eng c ''s'' st'))))"

definition set_op :: "(nat \<Rightarrow> DatabaseManager) \<Rightarrow> engine \<Rightarrow> jsval \<Rightarrow> jsval \<Rightarrow> unit outcome" where
  "set_op tline eng key val =
     (if invalid_key key then (Rejected (Error ''Invalid key''), [], eng)
      else if val = JUndefined then (Rejected (Error ''Value cannot be undefined''), [], eng)
      else (case waitForDB tline of
              None \<Rightarrow> (Pending, [], eng)
            | Some n \<Rightarrow> set_executor (tline n) eng key val))"

definition delete_handlers :: "event \<Rightarrow> unit promise option" where
  "delete_handlers ev =
     (case ev of
        Success result \<Rightarrow> Some (Resolved ())
      | RequestError \<Rightarrow> Some (Rejected (Error ''Error deleting the value from IndexedDB''))
      | Complete \<Rightarrow> None
      | Abort \<Rightarrow> None)"

definition delete_executor :: "DatabaseManager \<Rightarrow> engine \<Rightarrow> jsval \<Rightarrow> unit outcome" where
  "delete_executor this eng key =
     (case db this of
        None \<Rightarrow> (Rejected TypeError, [], eng)
      | Some c \<Rightarrow>
          (case transaction eng c ''s'' of
             Inl e \<Rightarrow> (Rejected e, [Transaction ''s'' ReadWrite], eng)
           | Inr st \<Rightarrow>
               (case store_delete st key of
                  Inl e \<Rightarrow>
                    (Rejected e, [Transaction ''s'' ReadWrite, ObjectStore ''s'', Delete key], eng)
                | Inr (result, st') \<Rightarrow>
                    (settle delete_handlers [Success result, Complete],
                     [Transaction ''s'' ReadWrite, ObjectStore ''s'', Delete key],
                     commit_store eng c ''s'' st'))))"

definition delete :: "(nat \<Rightarrow> DatabaseManager) \<Rightarrow> engine \<Rightarrow> jsval \<Rightarrow> unit outcome" where
  "delete tline eng key =
     (case waitForDB tline of
        None \<Rightarrow> (Pending, [], eng)
      | Some n \<Rightarrow> delete_executor (tline n) eng key)"

definition list_handlers :: "event \<Rightarrow> jsval promise option" where
  "list_handlers ev =
     (case ev of
        Success result \<Rightarrow> Some (Resolved (js_or result (JArr [])))
      | RequestError \<Rightarrow> Some (Rejected (Error ''Error listing keys from IndexedDB''))
      | Complete \<Rightarrow> None
      | Abort \<Rightarrow> None)"

definition list_executor :: "DatabaseManager \<Rightarrow> engine \<Rightarrow> jsval outcome" where
  "list_executor this eng =
     (case db this of
        None \<Rightarrow> (Rejected TypeError, [], eng)
      | Some c \<Rightarrow>
          (case transaction eng c ''s'' of
             Inl e \<Rightarrow> (Rejected e, [Transaction ''s'' ReadOnly], eng)
           | Inr st \<Rightarrow>
               (settle list_handlers [Success (store_getAllKeys st), Complete],
                [Transaction ''s'' ReadOnly, ObjectStore ''s'', GetAllKeys], eng)))"

definition list_op :: "(nat \<Rightarrow> DatabaseManager) \<Rightarrow> engine \<Rightarrow> jsval outcome" where
  "list_op tline eng =
     (case waitForDB tline of
        None \<Rightarrow> (Pending, [], eng)
      | Some n \<Rightarrow> list_executor (tline n) eng)"

definition getAll_handlers :: "event \<Rightarrow> jsval promise option" where
  "getAll_handlers ev =
     (case ev of
        Success result \<Rightarrow> Some (Resolved (js_or result (JArr [])))
      | RequestError \<Rightarrow> Some (Rejected (Error ''Error getting all values from IndexedDB''))
      | Complete \<Rightarrow> None
      | Abort \<Rightarrow> None)"

definition getAll_executor :: "DatabaseManager \<Rightarrow> engine \<Rightarrow> jsval outcome" where
  "getAll_executor this eng =
     (case db this of
        None \<Rightarrow> (Rejected TypeError, [], eng)
      | Some c \<Rightarrow>
          (case transaction eng c ''s'' of
             Inl e \<Rightarrow> (Rejected e, [Transaction ''s'' ReadOnly], eng)
           | Inr st \<Rightarrow>
               (settle getAll_handlers [Success (store_getAll st), Complete],
                [Transaction ''s'' ReadOnly, ObjectStore ''s'', GetAll], eng)))"

definition getAll :: "(nat \<Rightarrow> DatabaseManager) \<Rightarrow> engine \<Rightarrow> jsval outcome" where
  "getAll tline eng =
     (case waitForDB tline of
        None \<Rightarrow> (Pending, [], eng)
      | Some n \<Rightarrow> getAll_executor (tline n) eng)"

definition clear_handlers :: "event \<Rightarrow> unit promise option" where
  "clear_handlers ev =
     (case ev of
        Success result \<Rightarrow> Some (Resolved ())
      | RequestError \<Rightarrow> Some (Rejected (Error ''Error clearing the object store in IndexedDB''))
      | Complete \<Rightarrow> None
      | Abort \<Rightarrow> None)"

definition clear_executor :: "DatabaseManager \<Rightarrow> engine \<Rightarrow> unit outcome" where
  "clear_executor this eng =
     (case db this of
        None \<Rightarrow> (Rejected TypeError, [], eng)
      | Some c \<Rightarrow>
          (case transaction eng c ''s'' of
             Inl e \<Rightarrow> (Rejected e, [Transaction ''s'' ReadWrite], eng)
           | Inr st \<Rightarrow>
               (case store_clear st of
                  (result, st') \<Rightarrow>
                    (settle clear_handlers [Success result, Complete],
                     [Transaction ''s'' ReadWrite, ObjectStore ''s'', Clear],
                     commit_store eng c ''s'' st'))))"

definition clear :: "(nat \<Rightarrow> DatabaseManager) \<Rightarrow> engine \<Rightarrow> unit outcome" where
  "clear tline eng =
     (case waitForDB tline of
        None \<Rightarrow> (Pending, [], eng)
      | Some n \<Rightarrow> clear_executor (tline n) eng)"

text \<open>
  \<^verbatim>\<open>setAll\<close>: \<^verbatim>\<open>entries.forEach\<close> throws \<^verbatim>\<open>TypeError\<close> unless \<^verbatim>\<open>entries\<close> is an array,
  and so does destructuring an entry that is \<^verbatim>\<open>undefined\<close> or \<^verbatim>\<open>null\<close>. An exception
  ends the loop before \<^verbatim>\<open>commit()\<close>; the transaction then commits by itself with the
  puts made before it.
\<close>

definition setAll_handlers :: "event \<Rightarrow> unit promise option" where
  "setAll_handlers ev =
     (case ev of
        Success result \<Rightarrow> None
      | RequestError \<Rightarrow> Some (Rejected (Error ''Error setting values in IndexedDB''))
      | Complete \<Rightarrow> Some (Resolved ())
      | Abort \<Rightarrow> None)"

fun put_all :: "object_store \<Rightarrow> jsval list \<Rightarrow> error option \<times> call list \<times> event list \<times> object_store" where
  "put_all st [] = (None, [], [], st)"
| "put_all st (e # es) =
     (if e = JUndefined \<or> e = JNull then (Some TypeError, [], [], st)
      else (let record = JObj [(''k'', js_field e ''key''), (''v'', js_field e ''value'')]
            in case store_put st record of
                 Inl err \<Rightarrow> (Some err, [Put record], [], st)
               | Inr (k, st') \<Rightarrow>
                   (case put_all st' es of
                      (r, cs, evs, st'') \<Rightarrow> (r, Put record # cs, Success k # evs, st''))))"

definition setAll_executor :: "DatabaseManager \<Rightarrow> engine \<Rightarrow> jsval \<Rightarrow> unit outcome" where
  "setAll_executor this eng entries =
     (case db this of
        None \<Rightarrow> (Rejected TypeError, [], eng)
      | Some c \<Rightarrow>
          (case transaction eng c ''s'' of
             Inl e \<Rightarrow> (Rejected e, [Transaction ''s'' ReadWrite], eng)
           | Inr st \<Rightarrow>
               (case entries of
                  JArr es \<Rightarrow>
                    (case put_all st es of
                       (Some err, cs, evs, st') \<Rightarrow>
                         (Rejected err, [Transaction ''s'' ReadWrite, ObjectStore ''s''] @ cs,
                          commit_store eng c ''s'' st')
                     | (None, cs, evs, st') \<Rightarrow>
                         (settle setAll_handlers (evs @ [Complete]),
                          [Transaction ''s'' ReadWrite, ObjectStore ''s''] @ cs @ [Commit],
                          commit_store eng c ''s'' st'))
                | _ \<Rightarrow> (Rejected TypeError, [Transaction ''s'' ReadWrite, ObjectStore ''s''], eng))))"

definition setAll :: "(nat \<Rightarrow> DatabaseManager) \<Rightarrow> engine \<Rightarrow> jsval \<Rightarrow> unit outcome" where
  "setAll tline eng entries =
     (case waitForDB tline of
        None \<Rightarrow> (Pending, [], eng)
      | Some n \<Rightarrow> setAll_executor (tline n) eng entries)"

text \<open>The states of an object store: created empty, then changed by the requests
  above, from whichever client.\<close>

inductive reachable :: "object_store \<Rightarrow> bool" where
  created: "reachable \<lparr>os_keyPath = path, os_records = []\<rparr>"
| put: "reachable st \<Longrightarrow> store_put st record = Inr (k, st') \<Longrightarrow> reachable st'"
| delete: "reachable st \<Longrightarrow> store_delete st key = Inr (r, st') \<Longrightarrow> reachable st'"
| clear: "reachable st \<Longrightarrow> store_clear st = (r, st') \<Longrightarrow> reachable st'"

text \<open>The three parts of an outcome.\<close>

definition promise_of :: "'a outcome \<Rightarrow> 'a promise" where
  "promise_of r = fst r"

definition calls_of :: "'a outcome \<Rightarrow> call list" where
  "calls_of r = fst (snd r)"

definition engine_of :: "'a outcome \<Rightarrow> engine" where
  "engine_of r = snd (snd r)"

section \<open>States for the examples\<close>

text \<open>A timeline on which the object does not change while an operation waits.\<close>

definition always :: "DatabaseManager \<Rightarrow> nat \<Rightarrow> DatabaseManager" where
  "always this n = this"

text \<open>A browser with \<^verbatim>\<open>window.indexedDB\<close>, and the state in which
  \<^verbatim>\<open>new DatabaseManager().init()\<close> ends there on an engine without databases.\<close>

definition browser :: "window option" where
  "browser = Some \<lparr>indexedDB = Present IDBFactory, mozIndexedDB = Absent,
                    webkitIndexedDB = Absent, msIndexedDB = Absent\<rparr>"

definition opened :: run_state where
  "opened = last (init browser default_manager Map.empty)"

text \<open>The engine after \<^verbatim>\<open>set('username', 'johnDoe')\<close> in that state.\<close>

definition filled :: engine where
  "filled = engine_of (set_op (always (manager opened)) (stored opened)
                         (JStr ''username'') (JStr ''johnDoe''))"

text \<open>The state in which the promise of that \<^verbatim>\<open>init()\<close> is resolved: the
  version-change transaction has completed, \<^verbatim>\<open>success\<close> has not fired yet.\<close>

definition created :: run_state where
  "created =
     \<lparr>manager = default_manager\<lparr>db := Some (Connection ''ldb'')\<rparr>,
      settled = Resolved (),
      stored = [''ldb'' \<mapsto> \<lparr>db_version = 1,
                 db_stores = [''s'' \<mapsto> \<lparr>os_keyPath = ''k'', os_records = []\<rparr>]\<rparr>]\<rparr>"

text \<open>The README's example, \<^verbatim>\<open>new DatabaseManager('myDatabase', 1, 'myStore', 'id')\<close>,
  after its \<^verbatim>\<open>init()\<close> on an engine without databases.\<close>

definition readme_manager :: DatabaseManager where
  "readme_manager = constructor ''myDatabase'' 1 ''myStore'' ''id''"

definition readme_opened :: run_state where
  "readme_opened = last (init browser readme_manager Map.empty)"

text \<open>A window that exposes no engine under any of the four names.\<close>

definition bare_window :: window where
  "bare_window = \<lparr>indexedDB = Absent, mozIndexedDB = Absent,
                   webkitIndexedDB = Absent, msIndexedDB = Absent\<rparr>"

section \<open>The gate and the engine: basic facts\<close>

lemma poll_Some: "poll tline n = Some m \<Longrightarrow> db (tline m) \<noteq> None"
  by (rule poll.raw_induct[where P = "\<lambda>tline n m. db (tline m) \<noteq> None"])
     (auto split: if_splits)

lemma waitForDB_now: "db (tline 0) \<noteq> None \<Longrightarrow> waitForDB tline = Some 0"
  by (auto simp: waitForDB_def)

lemma waitForDB_Some: "waitForDB tline = Some m \<Longrightarrow> db (tline m) \<noteq> None"
  by (auto simp: waitForDB_def dest: poll_Some split: if_splits)

lemma waitForDB_never: "(\<And>n. db (tline n) = None) \<Longrightarrow> waitForDB tline = None"
  by (metis waitForDB_Some not_None_eq)

lemma transaction_commit_store:
  "transaction eng c name = Inr st \<Longrightarrow> transaction (commit_store eng c name st') c name = Inr st'"
  by (auto simp: transaction_def commit_store_def split: option.splits)

lemma commit_store_twice:
  "commit_store (commit_store eng c name st1) c name st2 = commit_store eng c name st2"
  by (auto simp: commit_store_def split: option.splits)

lemma outcome_simps [simp]:
  "promise_of (p, cs, e) = p" "calls_of (p, cs, e) = cs" "engine_of (p, cs, e) = e"
  by (simp_all add: promise_of_def calls_of_def engine_of_def)

lemma commit_store_same:
  "transaction eng c name = Inr st \<Longrightarrow> commit_store eng c name st = eng"
proof -
  assume a: "transaction eng c name = Inr st"
  then obtain d where d: "eng (conn_name c) = Some d" "db_stores d name = Some st"
    by (auto simp: transaction_def split: option.splits)
  have "(db_stores d)(name \<mapsto> st) = db_stores d" using d(2) by (rule map_upd_triv)
  then have "d\<lparr>db_stores := (db_stores d)(name \<mapsto> st)\<rparr> = d" by simp
  then show ?thesis using d(1) by (simp add: commit_store_def map_upd_triv)
qed

lemma filter_absent: "k \<notin> fst ` set rs \<Longrightarrow> filter (\<lambda>r. fst r \<noteq> k) rs = rs"
  by (induction rs) auto

lemma trim_Nil: "trim [] = []"
  by (simp add: trim_def)

lemma always_apply: "always this n = this"
  by (simp add: always_def)

lemma waitForDB_always: "db this = Some c \<Longrightarrow> waitForDB (always this) = Some 0"
  by (simp add: waitForDB_now always_def)

lemma valid_key_path_examples: "valid_key_path ''k''" "valid_key_path ''id''"
  by (simp_all add: valid_key_path_def is_identifier_start_def is_identifier_part_def)

lemmas init_defs = init_def browser_def default_manager_def constructor_def first_of_def
  idb_open_def onupgradeneeded_def createObjectStore_def oncomplete_def onsuccess_def onerror_def
  valid_key_path_examples
  resolve_def reject_def Let_def

lemma opened_simps:
  "db (manager opened) = Some (Connection ''ldb'')"
  "transaction (stored opened) (Connection ''ldb'') ''s'' = Inr \<lparr>os_keyPath = ''k'', os_records = []\<rparr>"
  "ready (manager opened) = True"
  by (simp_all add: opened_def init_defs transaction_def)

lemma gate_opened:
  "waitForDB (always (manager opened)) = Some 0"
  "db (always (manager opened) 0) = Some (Connection ''ldb'')"
  by (simp_all add: waitForDB_always always_apply opened_simps)

lemma filled_simps:
  "transaction filled (Connection ''ldb'') ''s'' =
     Inr \<lparr>os_keyPath = ''k'',
          os_records = [(KStr ''username'',
                         JObj [(''k'', JStr ''username''), (''v'', JStr ''johnDoe'')])]\<rparr>"
  using opened_simps(2)
  by (simp add: filled_def set_op_def gate_opened set_executor_def trim_def is_white_space_def
      store_put_def extract_key_def evaluate_key_path_def set_handlers_def
      transaction_commit_store Let_def)

lemma readme_opened_simps:
  "db (manager readme_opened) = Some (Connection ''myDatabase'')"
  "storeName (manager readme_opened) = ''myStore''"
  "transaction (stored readme_opened) (Connection ''myDatabase'') ''myStore''
     = Inr \<lparr>os_keyPath = ''id'', os_records = []\<rparr>"
  "transaction (stored readme_opened) (Connection ''myDatabase'') ''s'' = Inl NotFoundError"
  by (simp_all add: readme_opened_def readme_manager_def init_defs transaction_def)

lemma waitForDB_readme: "waitForDB (always (manager readme_opened)) = Some 0"
  by (simp add: waitForDB_always readme_opened_simps)

lemma created_first: "first_settled (init browser default_manager Map.empty) = Some created"
  by (simp add: created_def init_defs)

subsection \<open>The key order\<close>

lemma key_less_irrefl: "\<not> key_less k k"
proof (induction k)
  case (KArr ks)
  then show ?case by (induction ks) auto
qed auto

lemma key_less_total: "k \<noteq> k' \<Longrightarrow> \<not> key_less k k' \<Longrightarrow> key_less k' k"
  by (induction k k' rule: key_less.induct) (auto split: if_splits)

lemma key_less_trans: "key_less a b \<Longrightarrow> key_less b c \<Longrightarrow> key_less a c"
proof (induction a b arbitrary: c rule: key_less.induct)
  case (1 a b)
  then show ?case by (cases c) auto
next
  case (2 a t)
  then show ?case by (cases c) auto
next
  case (3 a ys)
  then show ?case by (cases c) auto
next
  case (5 s t)
  then show ?case by (cases c) auto
next
  case (6 s ys)
  then show ?case by (cases c) auto
next
  case (10 y ys)
  show ?case
  proof (cases c)
    case (KArr zs)
    with 10 show ?thesis by (cases zs) auto
  qed (use 10 in auto)
next
  case (12 x xs y ys)
  show ?case
  proof (cases c)
    case (KArr zs)
    show ?thesis
    proof (cases zs)
      case Nil
      with 12 KArr show ?thesis by simp
    next
      case (Cons z zs')
      with 12 KArr show ?thesis
        by (auto split: if_splits) (use key_less_irrefl in blast)+
    qed
  qed (use 12 in auto)
qed simp_all

lemma those_map_Some:
  "those (map f xs) = Some ys \<Longrightarrow> list_all2 (\<lambda>x y. f x = Some y) xs ys"
  by (induction xs arbitrary: ys) (auto split: option.splits)

lemma to_key_inverse: "to_key v = Some k \<Longrightarrow> key_to_js k = v"
proof (induction v arbitrary: k rule: to_key.induct)
  case (3 vs)
  then obtain ks where ks: "k = KArr ks" "those (map to_key vs) = Some ks" by auto
  from ks(2) have "list_all2 (\<lambda>x y. to_key x = Some y) vs ks" by (rule those_map_Some)
  then have "map key_to_js ks = vs"
    using "3.IH" by (induction vs ks rule: list_all2_induct) auto
  then show ?case by (simp add: ks(1))
qed auto

subsection \<open>The records of a store\<close>

lemma map_of_insert_record: "map_of (insert_record k v rs) k = Some v"
  by (induction rs) auto

lemma map_of_insert_record_other: "k' \<noteq> k \<Longrightarrow> map_of (insert_record k v rs) k' = map_of rs k'"
  by (induction rs) auto

lemma insert_record_keys:
  "fst ` set (insert_record k v rs) = insert k (fst ` set rs)"
  by (induction rs) force+

lemma sorted_insert_record:
  "sorted_wrt key_less (map fst rs) \<Longrightarrow> sorted_wrt key_less (map fst (insert_record k v rs))"
proof (induction rs)
  case Nil
  then show ?case by simp
next
  case (Cons r rs)
  obtain k' v' where r: "r = (k', v')" by (cases r)
  show ?case
  proof (cases "k = k'")
    case True
    with Cons.prems r show ?thesis by simp
  next
    case False
    show ?thesis
    proof (cases "key_less k k'")
      case True
      with Cons.prems r False show ?thesis
        by (auto intro: key_less_trans)
    next
      case nl: False
      have "key_less k' k" using False nl key_less_total by blast
      with Cons r False nl show ?thesis
        by (auto simp: insert_record_keys)
    qed
  qed
qed

lemma sorted_filter_records:
  "sorted_wrt key_less (map fst rs) \<Longrightarrow> sorted_wrt key_less (map fst (filter P rs))"
  by (induction rs) auto

lemma list_all_insert_record:
  "list_all P rs \<Longrightarrow> P (k, v) \<Longrightarrow> list_all P (insert_record k v rs)"
  by (induction rs) auto

lemma extract_key_k:
  "extract_key ''k'' (JObj [(''k'', key), (''v'', val)]) = to_key key"
  by (simp add: extract_key_def evaluate_key_path_def)

subsection \<open>set, then get\<close>

lemma set_op_stores:
  assumes "waitForDB tline = Some n" and "db (tline n) = Some c"
    and "transaction eng c ''s'' = Inr st" and "os_keyPath st = ''k''"
    and "trim s \<noteq> []" and "val \<noteq> JUndefined"
  shows "set_op tline eng (JStr s) val =
      (Resolved (),
       [Transaction ''s'' ReadWrite, ObjectStore ''s'',
        Put (JObj [(''k'', JStr s), (''v'', val)]), Commit],
       commit_store eng c ''s''
         (st\<lparr>os_records :=
               insert_record (KStr s) (JObj [(''k'', JStr s), (''v'', val)]) (os_records st)\<rparr>))"
  using assms
  by (simp add: set_op_def set_executor_def store_put_def extract_key_k set_handlers_def Let_def)

text \<open>What \<^verbatim>\<open>get\<close> returns for a key just set: \<^verbatim>\<open>value || null\<close>.\<close>

lemma get_after_set_op:
  assumes "waitForDB tline = Some n" and "db (tline n) = Some c"
    and "transaction eng c ''s'' = Inr st" and "os_keyPath st = ''k''"
    and "trim s \<noteq> []" and "val \<noteq> JUndefined"
  shows "promise_of (get tline (engine_of (set_op tline eng (JStr s) val)) (JStr s))
           = Resolved (js_or val JNull)"
  using assms(1,2) transaction_commit_store [OF assms(3)]
  by (simp add: set_op_stores [OF assms] get_def get_executor_def store_get_def
      map_of_insert_record get_handlers_def js_and_def)

lemma get_after_set_falsy:
  "promise_of (get (always (manager opened))
      (engine_of (set_op (always (manager opened)) (stored opened) (JStr ''a'') (JNum 0)))
      (JStr ''a'')) = Resolved JNull"
  "promise_of (get (always (manager opened))
      (engine_of (set_op (always (manager opened)) (stored opened) (JStr ''a'') (JBool False)))
      (JStr ''a'')) = Resolved JNull"
  "promise_of (get (always (manager opened))
      (engine_of (set_op (always (manager opened)) (stored opened) (JStr ''a'') (JStr [])))
      (JStr ''a'')) = Resolved JNull"
proof -
  have t: "trim ''a'' \<noteq> []" by (simp add: trim_def is_white_space_def)
  have k: "os_keyPath \<lparr>os_keyPath = ''k'', os_records = []\<rparr> = ''k''" by simp
  note g = get_after_set_op [OF gate_opened opened_simps(2) k t]
  show "promise_of (get (always (manager opened))
      (engine_of (set_op (always (manager opened)) (stored opened) (JStr ''a'') (JNum 0)))
      (JStr ''a'')) = Resolved JNull"
    using g [of "JNum 0"] by (simp add: js_or_def)
  show "promise_of (get (always (manager opened))
      (engine_of (set_op (always (manager opened)) (stored opened) (JStr ''a'') (JBool False)))
      (JStr ''a'')) = Resolved JNull"
    using g [of "JBool False"] by (simp add: js_or_def)
  show "promise_of (get (always (manager opened))
      (engine_of (set_op (always (manager opened)) (stored opened) (JStr ''a'') (JStr [])))
      (JStr ''a'')) = Resolved JNull"
    using g [of "JStr []"] by (simp add: js_or_def)
qed

lemma settle_set_Complete: "settle set_handlers evs = Resolved u \<Longrightarrow> Complete \<in> set evs"
  by (induction evs) (auto simp: set_handlers_def split: event.splits)

subsection \<open>What the gate and the executors read\<close>

lemma poll_opens: "db (tline (n + d)) \<noteq> None \<Longrightarrow> \<exists>m. poll tline n = Some m"
proof (induction d arbitrary: n)
  case 0
  then show ?case by (subst poll.simps) auto
next
  case (Suc d)
  then have "\<exists>m. poll tline (Suc n) = Some m" by simp
  then show ?case by (subst poll.simps) auto
qed

text \<open>The gate opens if and only if \<open>db\<close> is set at some tick, and it opens on a tick at
  which \<open>db\<close> is set; \<open>ready\<close> is not read.\<close>

lemma waitForDB_poll: "waitForDB tline = poll tline 0"
  by (subst poll.simps) (auto simp: waitForDB_def)

lemma waitForDB_opens: "db (tline m) \<noteq> None \<Longrightarrow> \<exists>n. waitForDB tline = Some n"
  using poll_opens [of tline 0 m] by (simp add: waitForDB_poll)

lemma calls_need_db:
  "calls_of (get tline eng key) \<noteq> [] \<Longrightarrow> \<exists>n. waitForDB tline = Some n \<and> db (tline n) \<noteq> None"
  by (auto simp: get_def get_executor_def split: option.splits)

text \<open>No executor reads \<open>storeName\<close>, \<open>keyPath\<close> or \<open>ready\<close>.\<close>

lemma executors_ignore_configuration:
  "get_executor (this\<lparr>storeName := x, keyPath := y, ready := z\<rparr>) eng key = get_executor this eng key"
  "set_executor (this\<lparr>storeName := x, keyPath := y, ready := z\<rparr>) eng key val
     = set_executor this eng key val"
  "delete_executor (this\<lparr>storeName := x, keyPath := y, ready := z\<rparr>) eng key
     = delete_executor this eng key"
  "list_executor (this\<lparr>storeName := x, keyPath := y, ready := z\<rparr>) eng = list_executor this eng"
  "getAll_executor (this\<lparr>storeName := x, keyPath := y, ready := z\<rparr>) eng = getAll_executor this eng"
  "clear_executor (this\<lparr>storeName := x, keyPath := y, ready := z\<rparr>) eng = clear_executor this eng"
  "setAll_executor (this\<lparr>storeName := x, keyPath := y, ready := z\<rparr>) eng entries
     = setAll_executor this eng entries"
  by (simp_all add: get_executor_def set_executor_def delete_executor_def list_executor_def
      getAll_executor_def clear_executor_def setAll_executor_def)

subsection \<open>The states of a store\<close>

lemma reachable_sorted: "reachable st \<Longrightarrow> sorted_wrt key_less (map fst (os_records st))"
proof (induction rule: reachable.induct)
  case (put st rcd k st')
  then show ?case
    by (auto simp: store_put_def sorted_insert_record split: option.splits)
next
  case (delete st key r st')
  then show ?case
    by (auto simp: store_delete_def sorted_filter_records split: option.splits)
qed (auto simp: store_clear_def)

lemma list_all_filter_records: "list_all P rs \<Longrightarrow> list_all P (filter Q rs)"
  by (induction rs) auto

lemma reachable_inline_keys:
  "reachable st \<Longrightarrow>
   list_all (\<lambda>r. extract_key (os_keyPath st) (snd r) = Some (fst r)) (os_records st)"
proof (induction rule: reachable.induct)
  case (put st rcd k st')
  then show ?case
    by (auto simp: store_put_def list_all_insert_record split: option.splits)
next
  case (delete st key r st')
  then show ?case
    by (auto simp: store_delete_def list_all_filter_records split: option.splits)
qed (auto simp: store_clear_def)

lemma extract_key_field:
  "extract_key ''k'' r = Some k \<Longrightarrow> js_field r ''k'' = key_to_js k"
  by (cases r)
     (auto simp: extract_key_def evaluate_key_path_def to_key_inverse split: option.splits if_splits)

lemma inline_keys_fields:
  "list_all (\<lambda>r. extract_key ''k'' (snd r) = Some (fst r)) rs \<Longrightarrow>
   map (\<lambda>r. js_field (snd r) ''k'') rs = map (\<lambda>r. key_to_js (fst r)) rs"
  by (induction rs) (auto simp: extract_key_field)

lemma filled_reachable:
  "reachable \<lparr>os_keyPath = ''k'',
          os_records = [(KStr ''username'',
                         JObj [(''k'', JStr ''username''), (''v'', JStr ''johnDoe'')])]\<rparr>"
proof -
  have "store_put \<lparr>os_keyPath = ''k'', os_records = []\<rparr>
           (JObj [(''k'', JStr ''username''), (''v'', JStr ''johnDoe'')])
        = Inr (JStr ''username'', \<lparr>os_keyPath = ''k'',
          os_records = [(KStr ''username'',
                         JObj [(''k'', JStr ''username''), (''v'', JStr ''johnDoe'')])]\<rparr>)"
    by (simp add: store_put_def extract_key_k)
  then show ?thesis by (rule reachable.put [OF reachable.created])
qed

lemma put_all_reachable:
  "reachable st \<Longrightarrow> put_all st es = (r, cs, evs, st') \<Longrightarrow> reachable st'"
proof (induction es arbitrary: st r cs evs st')
  case Nil
  then show ?case by simp
next
  case (Cons e es)
  show ?case
  proof (cases "e = JUndefined \<or> e = JNull")
    case True
    with Cons.prems show ?thesis by auto
  next
    case False
    let ?rcd = "JObj [(''k'', js_field e ''key''), (''v'', js_field e ''value'')]"
    show ?thesis
    proof (cases "store_put st ?rcd")
      case (Inl err)
      with Cons.prems False show ?thesis by (auto simp: Let_def)
    next
      case (Inr p)
      obtain k st1 where p: "p = (k, st1)" by (cases p)
      have r1: "reachable st1" using Cons.prems(1) Inr p by (auto intro: reachable.put)
      obtain r2 cs2 evs2 st2 where rest: "put_all st1 es = (r2, cs2, evs2, st2)"
        by (cases "put_all st1 es") auto
      have "reachable st2" using Cons.IH [OF r1 rest] .
      moreover have "st' = st2" using Cons.prems(2) False Inr p rest by (simp add: Let_def)
      ultimately show ?thesis by simp
    qed
  qed
qed

text \<open>The writing operations of the class keep the collection among these states.\<close>

lemma writes_keep_reachable:
  assumes "waitForDB tline = Some n" and "db (tline n) = Some c"
    and "transaction eng c ''s'' = Inr st" and "reachable st"
  shows "\<exists>st'. transaction (engine_of (set_op tline eng key val)) c ''s'' = Inr st' \<and> reachable st'"
    and "\<exists>st'. transaction (engine_of (delete tline eng key)) c ''s'' = Inr st' \<and> reachable st'"
    and "\<exists>st'. transaction (engine_of (clear tline eng)) c ''s'' = Inr st' \<and> reachable st'"
    and "\<exists>st'. transaction (engine_of (setAll tline eng entries)) c ''s'' = Inr st' \<and> reachable st'"
proof -
  show "\<exists>st'. transaction (engine_of (set_op tline eng key val)) c ''s'' = Inr st' \<and> reachable st'"
    using assms
    by (auto simp: set_op_def set_executor_def Let_def transaction_commit_store
        intro: reachable.put split: sum.splits)
  show "\<exists>st'. transaction (engine_of (delete tline eng key)) c ''s'' = Inr st' \<and> reachable st'"
    using assms
    by (auto simp: delete_def delete_executor_def transaction_commit_store
        intro: reachable.delete split: sum.splits)
  show "\<exists>st'. transaction (engine_of (clear tline eng)) c ''s'' = Inr st' \<and> reachable st'"
    using assms
    by (auto simp: clear_def clear_executor_def transaction_commit_store
        intro: reachable.clear split: prod.splits)
  show "\<exists>st'. transaction (engine_of (setAll tline eng entries)) c ''s'' = Inr st' \<and> reachable st'"
    using assms
    by (auto simp: setAll_def setAll_executor_def transaction_commit_store
        dest: put_all_reachable split: jsval.splits prod.splits option.splits)
qed

section \<open>Validation in set\<close>

text \<open>
  C6. \<^verbatim>\<open>set(key, value)\<close> is rejected with \<^verbatim>\<open>Error('Invalid key')\<close> when \<open>key\<close> is not a
  non-empty string, and with \<^verbatim>\<open>Error('Value cannot be undefined')\<close> when the key
  passes and \<open>value\<close> is \<^verbatim>\<open>undefined\<close> (the key is tested first). Both hold on every
  timeline, also one on which the gate never opens: the rejection comes before the
  wait. No engine call is made and the engine is unchanged.
\<close>

theorem set_rejects_invalid_input:
  "((\<forall>s. key \<noteq> JStr s) \<or> key = JStr [] \<longrightarrow>
      set_op tline eng key val = (Rejected (Error ''Invalid key''), [], eng)) \<and>
   (\<not> invalid_key key \<and> val = JUndefined \<longrightarrow>
      set_op tline eng key val = (Rejected (Error ''Value cannot be undefined''), [], eng))"
  by (cases key) (auto simp: set_op_def trim_Nil)

theorem set_rejects_invalid_input_witness:
  "set_op (always default_manager) Map.empty (JStr []) (JNum 1)
     = (Rejected (Error ''Invalid key''), [], Map.empty) \<and>
   set_op (always default_manager) Map.empty (JNum 7) (JNum 1)
     = (Rejected (Error ''Invalid key''), [], Map.empty) \<and>
   set_op (always default_manager) Map.empty (JStr ''k'') JUndefined
     = (Rejected (Error ''Value cannot be undefined''), [], Map.empty)"
  using set_rejects_invalid_input [of "JStr []" "always default_manager" Map.empty "JNum 1"]
        set_rejects_invalid_input [of "JNum 7" "always default_manager" Map.empty "JNum 1"]
        set_rejects_invalid_input [of "JStr ''k''" "always default_manager" Map.empty JUndefined]
  by (simp add: trim_def is_white_space_def)

text \<open>
  C10. A string key whose trimmed form is empty is rejected by \<^verbatim>\<open>set\<close> with
  \<^verbatim>\<open>Error('Invalid key')\<close>, before the wait and with no engine call; \<^verbatim>\<open>' '\<close> is such
  a key and is not the empty string.
\<close>

theorem set_rejects_blank_key:
  "trim s = [] \<Longrightarrow> set_op tline eng (JStr s) val = (Rejected (Error ''Invalid key''), [], eng)"
  by (simp add: set_op_def)

theorem set_rejects_blank_key_witness:
  "'' '' \<noteq> [] \<and> trim '' '' = [] \<and>
   set_op (always (manager opened)) (stored opened) (JStr '' '') (JStr ''x'')
     = (Rejected (Error ''Invalid key''), [], stored opened)"
proof -
  have h: "trim '' '' = []" by (simp add: trim_def is_white_space_def)
  show ?thesis using h set_rejects_blank_key [OF h] by simp
qed

section \<open>delete, list and clear\<close>

text \<open>
  C8. With the connection open on a database that holds the collection,
  \<^verbatim>\<open>delete(k)\<close> resolves for every valid key \<open>k\<close> (every string is one), whether a
  record with that key exists or not; a second \<^verbatim>\<open>delete(k)\<close> has the same result and
  leaves the engine as the first one left it; and when no record has the key, the
  engine is unchanged.
\<close>

theorem delete_idempotent:
  assumes "waitForDB tline = Some n" and "db (tline n) = Some c"
    and "transaction eng c ''s'' = Inr st" and "to_key key = Some k"
  shows "promise_of (delete tline eng key) = Resolved () \<and>
         delete tline (engine_of (delete tline eng key)) key = delete tline eng key \<and>
         (k \<notin> fst ` set (os_records st) \<longrightarrow> engine_of (delete tline eng key) = eng)"
proof -
  let ?st' = "st\<lparr>os_records := filter (\<lambda>r. fst r \<noteq> k) (os_records st)\<rparr>"
  have 1: "delete tline eng key =
      (Resolved (), [Transaction ''s'' ReadWrite, ObjectStore ''s'', Delete key],
       commit_store eng c ''s'' ?st')"
    using assms by (simp add: delete_def delete_executor_def store_delete_def delete_handlers_def)
  have t: "transaction (commit_store eng c ''s'' ?st') c ''s'' = Inr ?st'"
    using assms(3) by (rule transaction_commit_store)
  have 2: "delete tline (commit_store eng c ''s'' ?st') key =
      (Resolved (), [Transaction ''s'' ReadWrite, ObjectStore ''s'', Delete key],
       commit_store eng c ''s'' ?st')"
    using assms(1,2,4) t
    by (simp add: delete_def delete_executor_def store_delete_def delete_handlers_def
        commit_store_twice)
  have 3: "commit_store eng c ''s'' ?st' = eng" if "k \<notin> fst ` set (os_records st)"
    using that assms(3) by (simp add: filter_absent commit_store_same)
  show ?thesis using 1 2 3 by simp
qed

theorem delete_idempotent_witness:
  "promise_of (delete (always (manager opened)) (stored opened) (JStr ''absent'')) = Resolved () \<and>
   delete (always (manager opened))
     (engine_of (delete (always (manager opened)) (stored opened) (JStr ''absent'')))
     (JStr ''absent'')
     = delete (always (manager opened)) (stored opened) (JStr ''absent'') \<and>
   engine_of (delete (always (manager opened)) (stored opened) (JStr ''absent'')) = stored opened"
proof -
  have k: "to_key (JStr ''absent'') = Some (KStr ''absent'')" by simp
  show ?thesis using delete_idempotent [OF gate_opened opened_simps(2) k] by simp
qed

text \<open>
  C9. \<^verbatim>\<open>list()\<close> on an empty collection resolves with the empty array, not with
  \<^verbatim>\<open>null\<close>; \<^verbatim>\<open>clear()\<close> resolves when the connection is open on a database that holds
  the collection; and whenever \<^verbatim>\<open>clear()\<close> has resolved, \<^verbatim>\<open>list()\<close> and \<^verbatim>\<open>getAll()\<close>
  after it both resolve with the empty array.
\<close>

theorem list_and_clear_empty:
  "(waitForDB tline = Some n \<and> db (tline n) = Some c \<and> transaction eng c ''s'' = Inr st \<and>
      os_records st = [] \<longrightarrow>
      promise_of (list_op tline eng) = Resolved (JArr [])) \<and>
   (waitForDB tline = Some n \<and> db (tline n) = Some c \<and> transaction eng c ''s'' = Inr st \<longrightarrow>
      promise_of (clear tline eng) = Resolved ()) \<and>
   (promise_of (clear tline eng) = Resolved () \<longrightarrow>
      promise_of (list_op tline (engine_of (clear tline eng))) = Resolved (JArr []) \<and>
      promise_of (getAll tline (engine_of (clear tline eng))) = Resolved (JArr []))"
proof (intro conjI impI)
  assume "waitForDB tline = Some n \<and> db (tline n) = Some c \<and> transaction eng c ''s'' = Inr st \<and>
      os_records st = []"
  then show "promise_of (list_op tline eng) = Resolved (JArr [])"
    by (simp add: list_op_def list_executor_def list_handlers_def store_getAllKeys_def js_or_def)
next
  assume "waitForDB tline = Some n \<and> db (tline n) = Some c \<and> transaction eng c ''s'' = Inr st"
  then show "promise_of (clear tline eng) = Resolved ()"
    by (simp add: clear_def clear_executor_def clear_handlers_def store_clear_def)
next
  assume a: "promise_of (clear tline eng) = Resolved ()"
  then obtain m c st where g: "waitForDB tline = Some m" "db (tline m) = Some c"
      "transaction eng c ''s'' = Inr st"
    by (auto simp: clear_def clear_executor_def split: option.splits sum.splits)
  then have e: "engine_of (clear tline eng) = commit_store eng c ''s'' (st\<lparr>os_records := []\<rparr>)"
    by (simp add: clear_def clear_executor_def store_clear_def)
  have t: "transaction (commit_store eng c ''s'' (st\<lparr>os_records := []\<rparr>)) c ''s''
             = Inr (st\<lparr>os_records := []\<rparr>)"
    using g(3) by (rule transaction_commit_store)
  show "promise_of (list_op tline (engine_of (clear tline eng))) = Resolved (JArr [])"
    using g t by (simp add: e list_op_def list_executor_def list_handlers_def
        store_getAllKeys_def js_or_def)
  show "promise_of (getAll tline (engine_of (clear tline eng))) = Resolved (JArr [])"
    using g t by (simp add: e getAll_def getAll_executor_def getAll_handlers_def
        store_getAll_def js_or_def)
qed

theorem list_and_clear_empty_witness:
  "promise_of (list_op (always (manager opened)) (stored opened)) = Resolved (JArr []) \<and>
   promise_of (clear (always (manager opened)) filled) = Resolved () \<and>
   promise_of (list_op (always (manager opened)) (engine_of (clear (always (manager opened)) filled)))
     = Resolved (JArr []) \<and>
   promise_of (getAll (always (manager opened)) (engine_of (clear (always (manager opened)) filled)))
     = Resolved (JArr [])"
proof -
  have a: "promise_of (list_op (always (manager opened)) (stored opened)) = Resolved (JArr [])"
    using list_and_clear_empty [of "always (manager opened)" 0 "Connection ''ldb''" "stored opened"
            "\<lparr>os_keyPath = ''k'', os_records = []\<rparr>"] gate_opened opened_simps(2)
    by simp
  have b: "promise_of (clear (always (manager opened)) filled) = Resolved ()"
    using list_and_clear_empty [of "always (manager opened)" 0 "Connection ''ldb''" filled]
      gate_opened filled_simps by simp
  show ?thesis
    using a b list_and_clear_empty [of "always (manager opened)" 0 "Connection ''ldb''" filled]
    by simp
qed

section \<open>set and get\<close>

text \<open>
  C1, as amended. With the connection open on a database whose collection \<^verbatim>\<open>'s'\<close>
  has the key path \<^verbatim>\<open>'k'\<close>: for every string key whose trimmed form is not empty and
  every value that is truthy or \<^verbatim>\<open>null\<close>, \<^verbatim>\<open>set(k, v)\<close> resolves and \<^verbatim>\<open>get(k)\<close> after
  it resolves with \<open>v\<close>.
\<close>

theorem set_then_get:
  assumes "waitForDB tline = Some n" and "db (tline n) = Some c"
    and "transaction eng c ''s'' = Inr st" and "os_keyPath st = ''k''"
    and "trim s \<noteq> []" and "truthy val \<or> val = JNull"
  shows "promise_of (set_op tline eng (JStr s) val) = Resolved () \<and>
         promise_of (get tline (engine_of (set_op tline eng (JStr s) val)) (JStr s)) = Resolved val"
proof -
  have v: "val \<noteq> JUndefined" using assms(6) by auto
  have "js_or val JNull = val" using assms(6) by (auto simp: js_or_def)
  then show ?thesis
    using set_op_stores [OF assms(1-5) v] get_after_set_op [OF assms(1-5) v] by simp
qed

theorem set_then_get_witness:
  "promise_of (set_op (always (manager opened)) (stored opened) (JStr ''username'') (JStr ''johnDoe''))
     = Resolved () \<and>
   promise_of (get (always (manager opened)) filled (JStr ''username'')) = Resolved (JStr ''johnDoe'') \<and>
   promise_of (get (always (manager opened))
      (engine_of (set_op (always (manager opened)) (stored opened) (JStr ''n'') JNull)) (JStr ''n''))
     = Resolved JNull"
proof -
  have t: "trim ''username'' \<noteq> []" "trim ''n'' \<noteq> []" by (simp_all add: trim_def is_white_space_def)
  have k: "os_keyPath \<lparr>os_keyPath = ''k'', os_records = []\<rparr> = ''k''" by simp
  have v: "truthy (JStr ''johnDoe'') \<or> JStr ''johnDoe'' = JNull" "truthy JNull \<or> JNull = JNull"
    by simp_all
  show ?thesis
    using set_then_get [OF gate_opened opened_simps(2) k t(1) v(1)]
          set_then_get [OF gate_opened opened_simps(2) k t(2) v(2)]
    by (simp add: filled_def)
qed

text \<open>
  C1 as stated fails at the key \<^verbatim>\<open>' '\<close>, a non-empty string: \<^verbatim>\<open>set(' ', 'x')\<close> is
  rejected, and \<^verbatim>\<open>get(' ')\<close> after it does not resolve with \<^verbatim>\<open>'x'\<close>.
\<close>

theorem set_get_blank_key:
  "promise_of (get (always (manager opened))
      (engine_of (set_op (always (manager opened)) (stored opened) (JStr '' '') (JStr ''x'')))
      (JStr '' ''))
   \<noteq> Resolved (JStr ''x'')"
  using opened_simps(2)
  by (simp add: set_op_def trim_def is_white_space_def get_def gate_opened get_executor_def
      store_get_def get_handlers_def js_and_def js_or_def)

text \<open>
  When the promise of \<^verbatim>\<open>set\<close> settles: it is resolved by the transaction's \<^verbatim>\<open>complete\<close>
  event only. Whatever the events, it is resolved only if \<open>Complete\<close> is among them,
  and after the success of the put alone it is still pending. For a valid key and
  value, with the connection open on a database whose collection \<^verbatim>\<open>'s'\<close> has the key
  path \<^verbatim>\<open>'k'\<close>, the events are the put's success and then \<open>Complete\<close>, the promise
  resolves, and the engine as \<^verbatim>\<open>set\<close> left it holds the record \<^verbatim>\<open>{k: key, v: value}\<close>.
\<close>

lemma set_settles_on_complete:
  "(settle set_handlers evs = Resolved u \<longrightarrow> Complete \<in> set evs) \<and>
   settle set_handlers [Success r] = Pending \<and>
   (waitForDB tline = Some n \<and> db (tline n) = Some c \<and> transaction eng c ''s'' = Inr st \<and>
    os_keyPath st = ''k'' \<and> trim s \<noteq> [] \<and> val \<noteq> JUndefined \<longrightarrow>
      promise_of (set_op tline eng (JStr s) val)
        = settle set_handlers [Success (JStr s), Complete] \<and>
      promise_of (set_op tline eng (JStr s) val) = Resolved () \<and>
      (\<exists>st'. transaction (engine_of (set_op tline eng (JStr s) val)) c ''s'' = Inr st' \<and>
             store_get st' (JStr s) = Inr (JObj [(''k'', JStr s), (''v'', val)])))"
proof (intro conjI impI)
  show "settle set_handlers evs = Resolved u \<Longrightarrow> Complete \<in> set evs"
    by (rule settle_set_Complete)
  show "settle set_handlers [Success r] = Pending"
    by (simp add: set_handlers_def)
next
  assume a: "waitForDB tline = Some n \<and> db (tline n) = Some c \<and> transaction eng c ''s'' = Inr st \<and>
    os_keyPath st = ''k'' \<and> trim s \<noteq> [] \<and> val \<noteq> JUndefined"
  then have s: "set_op tline eng (JStr s) val =
      (Resolved (),
       [Transaction ''s'' ReadWrite, ObjectStore ''s'',
        Put (JObj [(''k'', JStr s), (''v'', val)]), Commit],
       commit_store eng c ''s''
         (st\<lparr>os_records :=
               insert_record (KStr s) (JObj [(''k'', JStr s), (''v'', val)]) (os_records st)\<rparr>))"
    by (simp add: set_op_stores)
  show "promise_of (set_op tline eng (JStr s) val) = settle set_handlers [Success (JStr s), Complete]"
    by (simp add: s set_handlers_def)
  show "promise_of (set_op tline eng (JStr s) val) = Resolved ()"
    by (simp add: s)
  have "transaction eng c ''s'' = Inr st" using a by simp
  then show "\<exists>st'. transaction (engine_of (set_op tline eng (JStr s) val)) c ''s'' = Inr st' \<and>
             store_get st' (JStr s) = Inr (JObj [(''k'', JStr s), (''v'', val)])"
    by (simp add: s transaction_commit_store store_get_def map_of_insert_record)
qed

text \<open>
  C7, on the code. \<^verbatim>\<open>set('count', 0)\<close> resolves at the \<^verbatim>\<open>complete\<close> event of its
  transaction, after the success of the put, and the record is committed; yet
  \<^verbatim>\<open>get('count')\<close> after it resolves with \<^verbatim>\<open>null\<close>, as it did before the write:
  \<^verbatim>\<open>(result && result.v) || null\<close> turns the stored \<^verbatim>\<open>0\<close> into \<^verbatim>\<open>null\<close>, so the
  following \<^verbatim>\<open>get\<close> does not observe the written value.
\<close>

theorem set_falsy_not_observed:
  "promise_of (set_op (always (manager opened)) (stored opened) (JStr ''count'') (JNum 0))
     = settle set_handlers [Success (JStr ''count''), Complete] \<and>
   promise_of (set_op (always (manager opened)) (stored opened) (JStr ''count'') (JNum 0))
     = Resolved () \<and>
   promise_of (get (always (manager opened))
      (engine_of (set_op (always (manager opened)) (stored opened) (JStr ''count'') (JNum 0)))
      (JStr ''count'')) = Resolved JNull \<and>
   promise_of (get (always (manager opened)) (stored opened) (JStr ''count'')) = Resolved JNull"
proof -
  have t: "trim ''count'' \<noteq> []" by (simp add: trim_def is_white_space_def)
  have k: "os_keyPath \<lparr>os_keyPath = ''k'', os_records = []\<rparr> = ''k''" by simp
  have v: "JNum 0 \<noteq> JUndefined" by simp
  have 1: "promise_of (set_op (always (manager opened)) (stored opened) (JStr ''count'') (JNum 0))
     = Resolved ()"
    by (simp add: set_op_stores [OF gate_opened opened_simps(2) k t v])
  have 2: "settle set_handlers [Success (JStr ''count''), Complete] = Resolved ()"
    by (simp add: set_handlers_def)
  have 3: "promise_of (get (always (manager opened))
      (engine_of (set_op (always (manager opened)) (stored opened) (JStr ''count'') (JNum 0)))
      (JStr ''count'')) = Resolved JNull"
    using get_after_set_op [OF gate_opened opened_simps(2) k t v] by (simp add: js_or_def)
  have 4: "promise_of (get (always (manager opened)) (stored opened) (JStr ''count'')) = Resolved JNull"
    by (simp add: get_def gate_opened get_executor_def opened_simps(2) store_get_def
        get_handlers_def js_and_def js_or_def)
  show ?thesis using 1 2 3 4 by simp
qed

section \<open>getAll\<close>

text \<open>
  C2, as amended. In every state of the collection, \<^verbatim>\<open>getAll()\<close> resolves with the
  stored records themselves, whole, in the order in which \<^verbatim>\<open>list()\<close> returns their
  keys: the \<open>i\<close>-th element of \<^verbatim>\<open>getAll()\<close> is the record stored under the \<open>i\<close>-th key
  of \<^verbatim>\<open>list()\<close>, the keys ascend, the key path of each record evaluates to its key,
  and with the key path \<^verbatim>\<open>'k'\<close> the \<^verbatim>\<open>k\<close> fields of the records are the keys of
  \<^verbatim>\<open>list()\<close>.
\<close>

theorem getAll_returns_records:
  assumes "waitForDB tline = Some n" and "db (tline n) = Some c"
    and "transaction eng c ''s'' = Inr st" and "reachable st"
  shows "promise_of (getAll tline eng) = Resolved (JArr (map snd (os_records st))) \<and>
         promise_of (list_op tline eng) = Resolved (JArr (map (\<lambda>r. key_to_js (fst r)) (os_records st))) \<and>
         sorted_wrt key_less (map fst (os_records st)) \<and>
         list_all (\<lambda>r. extract_key (os_keyPath st) (snd r) = Some (fst r)) (os_records st) \<and>
         (os_keyPath st = ''k'' \<longrightarrow>
            map (\<lambda>r. js_field (snd r) ''k'') (os_records st)
              = map (\<lambda>r. key_to_js (fst r)) (os_records st))"
proof -
  have 1: "promise_of (getAll tline eng) = Resolved (JArr (map snd (os_records st)))"
    using assms(1-3)
    by (simp add: getAll_def getAll_executor_def getAll_handlers_def store_getAll_def js_or_def)
  have 2: "promise_of (list_op tline eng)
             = Resolved (JArr (map (\<lambda>r. key_to_js (fst r)) (os_records st)))"
    using assms(1-3)
    by (simp add: list_op_def list_executor_def list_handlers_def store_getAllKeys_def js_or_def)
  have 3: "list_all (\<lambda>r. extract_key (os_keyPath st) (snd r) = Some (fst r)) (os_records st)"
    using assms(4) by (rule reachable_inline_keys)
  have 4: "map (\<lambda>r. js_field (snd r) ''k'') (os_records st)
              = map (\<lambda>r. key_to_js (fst r)) (os_records st)" if "os_keyPath st = ''k''"
    using 3 that by (simp add: inline_keys_fields)
  show ?thesis using 1 2 3 4 reachable_sorted [OF assms(4)] by simp
qed

theorem getAll_returns_records_witness:
  "promise_of (getAll (always (manager opened)) filled)
     = Resolved (JArr [JObj [(''k'', JStr ''username''), (''v'', JStr ''johnDoe'')]]) \<and>
   promise_of (list_op (always (manager opened)) filled) = Resolved (JArr [JStr ''username''])"
  using getAll_returns_records [OF gate_opened filled_simps filled_reachable]
  by simp

text \<open>
  C2 as stated fails after \<^verbatim>\<open>set('username', 'johnDoe')\<close>: \<^verbatim>\<open>getAll()\<close> resolves with
  \<^verbatim>\<open>[{k: 'username', v: 'johnDoe'}]\<close>, not with \<^verbatim>\<open>['johnDoe']\<close>.
\<close>

theorem getAll_payloads_counterexample:
  "promise_of (getAll (always (manager opened)) filled)
     = Resolved (JArr [JObj [(''k'', JStr ''username''), (''v'', JStr ''johnDoe'')]]) \<and>
   promise_of (getAll (always (manager opened)) filled) \<noteq> Resolved (JArr [JStr ''johnDoe''])"
  by (simp add: getAll_def gate_opened getAll_executor_def filled_simps getAll_handlers_def
      store_getAll_def js_or_def)

section \<open>init and the configuration\<close>

text \<open>
  C4, on the code. Where \<^verbatim>\<open>window\<close> is undefined, \<^verbatim>\<open>init()\<close> rejects with the
  \<^verbatim>\<open>TypeError\<close> of \<^verbatim>\<open>indexedDB.open\<close> on \<^verbatim>\<open>undefined\<close>, not with
  \<^verbatim>\<open>Error('IndexedDB not supported')\<close>; where \<^verbatim>\<open>window\<close> is defined and has none of the
  four properties it rejects with \<^verbatim>\<open>Error('IndexedDB not supported')\<close>. \<^verbatim>\<open>isSupported()\<close>
  is false in both.
\<close>

theorem init_without_window:
  "map settled (init None this eng) = [Rejected TypeError] \<and>
   map settled (init (Some bare_window) this eng) = [Rejected (Error ''IndexedDB not supported'')] \<and>
   isSupported None = False \<and> isSupported (Some bare_window) = False"
  by (simp add: init_def bare_window_def first_of_def isSupported_def)

text \<open>
  C3, on the code. After \<^verbatim>\<open>new DatabaseManager('myDatabase', 1, 'myStore', 'id').init()\<close>
  every data operation opens its transaction on \<^verbatim>\<open>'s'\<close>, not on \<^verbatim>\<open>'myStore'\<close>, and is
  rejected with \<^verbatim>\<open>NotFoundError\<close>.
\<close>

theorem operations_ignore_storeName:
  "storeName (manager readme_opened) = ''myStore'' \<and>
   get (always (manager readme_opened)) (stored readme_opened) (JStr ''username'')
     = (Rejected NotFoundError, [Transaction ''s'' ReadOnly], stored readme_opened) \<and>
   set_op (always (manager readme_opened)) (stored readme_opened) (JStr ''username'') (JStr ''johnDoe'')
     = (Rejected NotFoundError, [Transaction ''s'' ReadWrite], stored readme_opened) \<and>
   delete (always (manager readme_opened)) (stored readme_opened) (JStr ''username'')
     = (Rejected NotFoundError, [Transaction ''s'' ReadWrite], stored readme_opened) \<and>
   list_op (always (manager readme_opened)) (stored readme_opened)
     = (Rejected NotFoundError, [Transaction ''s'' ReadOnly], stored readme_opened) \<and>
   getAll (always (manager readme_opened)) (stored readme_opened)
     = (Rejected NotFoundError, [Transaction ''s'' ReadOnly], stored readme_opened) \<and>
   clear (always (manager readme_opened)) (stored readme_opened)
     = (Rejected NotFoundError, [Transaction ''s'' ReadWrite], stored readme_opened) \<and>
   setAll (always (manager readme_opened)) (stored readme_opened)
       (JArr [JObj [(''key'', JStr ''name''), (''value'', JStr ''Alice'')]])
     = (Rejected NotFoundError, [Transaction ''s'' ReadWrite], stored readme_opened)"
  by (simp add: readme_opened_simps waitForDB_readme always_apply
      get_def get_executor_def set_op_def set_executor_def delete_def delete_executor_def
      list_op_def list_executor_def getAll_def getAll_executor_def clear_def clear_executor_def
      setAll_def setAll_executor_def trim_def is_white_space_def)

text \<open>
  C5, on the code. \<^verbatim>\<open>new DatabaseManager().init()\<close> on an engine without databases
  resolves in the state \<open>created\<close>: \<open>db\<close> is set and \<open>ready\<close> is false. A \<^verbatim>\<open>get\<close> called
  there passes the gate and issues its request.
\<close>

theorem request_before_ready:
  "first_settled (init browser default_manager Map.empty) = Some created \<and>
   settled created = Resolved () \<and>
   db (manager created) = Some (Connection ''ldb'') \<and>
   ready (manager created) = False \<and>
   get (always (manager created)) (stored created) (JStr ''username'')
     = (Resolved JNull, [Transaction ''s'' ReadOnly, ObjectStore ''s'', Get (JStr ''username'')],
        stored created)"
  by (simp add: created_first)
     (simp add: created_def default_manager_def constructor_def get_def waitForDB_always always_apply
       get_executor_def transaction_def store_get_def get_handlers_def js_and_def js_or_def)

end
